theory Spec2Isabelle
  imports Main
begin

section \<open>Enumerations and exceptions\<close>

text \<open>
  The members of \<^verbatim>\<open>pyatv.const.Protocol\<close> that the sources mention: \<^verbatim>\<open>facade.py\<close> lists
  MRP, DMAP, Companion and AirPlay in \<^verbatim>\<open>DEFAULT_PRIORITIES\<close>, and \<^verbatim>\<open>atvremote.py\<close>
  also uses \<^verbatim>\<open>Protocol.RAOP\<close>, which the priority list does not contain.
\<close>

datatype Protocol = DMAP | MRP | AirPlay | Companion | RAOP

text \<open>\<^verbatim>\<open>pyatv.const.FeatureState\<close>, the four states a feature can be reported in.\<close>

datatype FeatureState = Unknown | Unsupported | Unavailable | Available

text \<open>
  Exceptions are values. \<open>ValueError\<close> is what \<^verbatim>\<open>list.index\<close> raises for a missing element,
  \<open>RuntimeError\<close> carries its message, \<open>NotSupportedError\<close> is the relayer's failure, and
  \<open>BackendError\<close> stands for whatever a protocol implementation or a listener raises.
\<close>

datatype error = ValueError | RuntimeError string | NotSupportedError | BackendError string

text \<open>
  Modelled from the spec: \<^verbatim>\<open>interface.FeatureInfo\<close> is declared outside the given sources.
  It is a pair of a state and an options mapping; built from a state alone, the options are
  empty.
\<close>

record FeatureInfo =
  state :: FeatureState
  options :: "string \<rightharpoonup> string"

definition FeatureInfo_of :: "FeatureState \<Rightarrow> FeatureInfo" where
  "FeatureInfo_of s = \<lparr>state = s, options = Map.empty\<rparr>"

text \<open>\<^verbatim>\<open>DEFAULT_PRIORITIES = [Protocol.MRP, Protocol.DMAP, Protocol.Companion, Protocol.AirPlay]\<close>\<close>

definition DEFAULT_PRIORITIES :: "Protocol list" where
  "DEFAULT_PRIORITIES = [MRP, DMAP, Companion, AirPlay]"

text \<open>\<^verbatim>\<open>list.index\<close>: the position of the first occurrence, \<open>ValueError\<close> when there is none.\<close>

fun list_index :: "'a list \<Rightarrow> 'a \<Rightarrow> error + nat" where
  "list_index [] x = Inl ValueError"
| "list_index (y # ys) x =
     (if y = x then Inr 0
      else (case list_index ys x of Inl e \<Rightarrow> Inl e | Inr n \<Rightarrow> Inr (Suc n)))"

section \<open>FacadeFeatures\<close>

text \<open>
  A protocol's implementation of \<^verbatim>\<open>interface.Features\<close>: an object (with an identity) whose
  \<^verbatim>\<open>get_feature\<close> answers from the live state \<open>'w\<close> of the outside world and may raise.
\<close>

datatype ('f, 'w) Features =
  Features (instance_id: nat) (instance_get_feature: "'w \<Rightarrow> 'f \<Rightarrow> error + FeatureInfo")

text \<open>
  \<open>interfaces\<close> is the relayer's table of registered instances (\<^verbatim>\<open>Relayer\<close> is declared
  outside the given sources; the table is what \<^verbatim>\<open>self.get(protocol)\<close> reads), and
  \<open>feature_map\<close> is \<^verbatim>\<open>self._feature_map\<close>, from a feature name to its holder.
\<close>

record ('f, 'w) FacadeFeatures =
  interfaces :: "Protocol \<rightharpoonup> ('f, 'w) Features"
  feature_map :: "'f \<rightharpoonup> Protocol \<times> ('f, 'w) Features"

text \<open>
  Modelled from the spec: \<^verbatim>\<open>Relayer.get\<close> is missing from the sources. A registry holds at
  most one binding per protocol, and \<open>get\<close> yields the instance bound to the protocol, or
  nothing.
\<close>

definition get :: "('f, 'w) FacadeFeatures \<Rightarrow> Protocol \<Rightarrow> ('f, 'w) Features option" where
  "get self protocol = interfaces self protocol"

text \<open>
  \<^verbatim>\<open>DEFAULT_PRIORITIES.index(first) < DEFAULT_PRIORITIES.index(second)\<close>; either lookup
  raises \<open>ValueError\<close> for a protocol outside the list, the first one first.
\<close>

definition has_higher_priority :: "Protocol \<Rightarrow> Protocol \<Rightarrow> error + bool" where
  "has_higher_priority first second =
     (case list_index DEFAULT_PRIORITIES first of
        Inl e \<Rightarrow> Inl e
      | Inr a \<Rightarrow>
          (case list_index DEFAULT_PRIORITIES second of
             Inl e \<Rightarrow> Inl e
           | Inr b \<Rightarrow> Inr (a < b)))"

text \<open>
  The loop of \<^verbatim>\<open>add_mapping\<close> over the feature set, given as the list of its elements in
  iteration order. The result is the exception that ended the loop, if any, and the feature
  map as the loop left it: entries written before an exception stay written.
\<close>

fun add_mapping_loop ::
  "Protocol \<Rightarrow> ('f, 'w) Features \<Rightarrow> 'f list \<Rightarrow> ('f \<rightharpoonup> Protocol \<times> ('f, 'w) Features)
     \<Rightarrow> error option \<times> ('f \<rightharpoonup> Protocol \<times> ('f, 'w) Features)" where
  "add_mapping_loop protocol inst [] fm = (None, fm)"
| "add_mapping_loop protocol inst (feature # rest) fm =
     (case fm feature of
        None \<Rightarrow> add_mapping_loop protocol inst rest (fm(feature \<mapsto> (protocol, inst)))
      | Some holder \<Rightarrow>
          (case has_higher_priority protocol (fst holder) of
             Inl e \<Rightarrow> (Some e, fm)
           | Inr True \<Rightarrow> add_mapping_loop protocol inst rest (fm(feature \<mapsto> (protocol, inst)))
           | Inr False \<Rightarrow> add_mapping_loop protocol inst rest fm))"

text \<open>
  \<^verbatim>\<open>add_mapping\<close>: \<^verbatim>\<open>instance = self.get(protocol)\<close>, and the loop only \<^verbatim>\<open>if instance\<close>. A
  Features object defines neither \<^verbatim>\<open>__bool__\<close> nor \<^verbatim>\<open>__len__\<close>, so the test fails exactly for
  \<^verbatim>\<open>None\<close>.
\<close>

definition add_mapping ::
  "('f, 'w) FacadeFeatures \<Rightarrow> Protocol \<Rightarrow> 'f list \<Rightarrow> error option \<times> ('f, 'w) FacadeFeatures" where
  "add_mapping self protocol feature_set =
     (case get self protocol of
        None \<Rightarrow> (None, self)
      | Some inst \<Rightarrow>
          (case add_mapping_loop protocol inst feature_set (feature_map self) of
             (r, fm) \<Rightarrow> (r, self\<lparr>feature_map := fm\<rparr>)))"

text \<open>
  \<^verbatim>\<open>get_feature\<close>: the holder's own \<^verbatim>\<open>get_feature\<close> when the name is in the map, and
  \<^verbatim>\<open>interface.FeatureInfo(FeatureState.Unsupported)\<close> otherwise.
\<close>

definition get_feature :: "('f, 'w) FacadeFeatures \<Rightarrow> 'w \<Rightarrow> 'f \<Rightarrow> error + FeatureInfo" where
  "get_feature self w feature_name =
     (case feature_map self feature_name of
        Some holder \<Rightarrow> instance_get_feature (snd holder) w feature_name
      | None \<Rightarrow> Inr (FeatureInfo_of Unsupported))"

section \<open>FacadePower\<close>

text \<open>
  The external listener (\<^verbatim>\<open>self.listener\<close>, an \<^verbatim>\<open>interface.PowerListener\<close>): its
  \<^verbatim>\<open>powerstate_update\<close> acts on the outside world and may raise. The payload type
  \<^verbatim>\<open>const.PowerState\<close> is declared outside the given sources and is the parameter \<open>'s\<close>.
\<close>

datatype ('s, 'w) PowerListener =
  PowerListener (listener_powerstate_update: "'s \<Rightarrow> 's \<Rightarrow> 'w \<Rightarrow> error option \<times> 'w")

record ('s, 'w) FacadePower =
  listener :: "('s, 'w) PowerListener"

text \<open>
  \<^verbatim>\<open>self.listener.powerstate_update(old_state, new_state)\<close>. The state is the outside world
  together with the list of calls the listener has received so far, oldest first.
\<close>

definition powerstate_update ::
  "('s, 'w) FacadePower \<Rightarrow> 's \<Rightarrow> 's \<Rightarrow> 'w \<times> ('s \<times> 's) list
     \<Rightarrow> error option \<times> ('w \<times> ('s \<times> 's) list)" where
  "powerstate_update self old_state new_state s =
     (case listener_powerstate_update (listener self) old_state new_state (fst s) of
        (r, w') \<Rightarrow> (r, (w', snd s @ [(old_state, new_state)])))"

text \<open>
  A sequence of incoming notifications: each is a call of \<^verbatim>\<open>powerstate_update\<close> made by some
  protocol implementation. An exception goes back to the implementation that made the call
  and does not reach the later notifications.
\<close>

fun notifications ::
  "('s, 'w) FacadePower \<Rightarrow> ('s \<times> 's) list \<Rightarrow> 'w \<times> ('s \<times> 's) list \<Rightarrow> 'w \<times> ('s \<times> 's) list" where
  "notifications self [] s = s"
| "notifications self ((old_state, new_state) # rest) s =
     notifications self rest (snd (powerstate_update self old_state new_state s))"

section \<open>FacadeMetadata\<close>

text \<open>
  A protocol's implementation of \<^verbatim>\<open>interface.Metadata\<close>, as far as \<^verbatim>\<open>artwork\<close> goes: the
  operations it provides and what its \<^verbatim>\<open>artwork(width, height)\<close> does.
\<close>

datatype ('a, 'w) Metadata =
  Metadata (declared_operations: "string list")
    (instance_artwork: "int option \<Rightarrow> int option \<Rightarrow> 'w \<Rightarrow> (error + 'a option) \<times> 'w")

record ('a, 'w) FacadeMetadata =
  metadata_interfaces :: "Protocol \<rightharpoonup> ('a, 'w) Metadata"

text \<open>
  Modelled from the spec: \<^verbatim>\<open>Relayer.relay\<close> is missing from the sources. Resolution scans
  the priority list in order and takes the instance of the first binding that provides the
  operation; with none, the call fails as not supported.
\<close>

fun find_instance ::
  "(Protocol \<rightharpoonup> ('a, 'w) Metadata) \<Rightarrow> string \<Rightarrow> Protocol list \<Rightarrow> ('a, 'w) Metadata option" where
  "find_instance tbl target [] = None"
| "find_instance tbl target (p # ps) =
     (case tbl p of
        None \<Rightarrow> find_instance tbl target ps
      | Some inst \<Rightarrow>
          (if target \<in> set (declared_operations inst) then Some inst
           else find_instance tbl target ps))"

definition relay :: "('a, 'w) FacadeMetadata \<Rightarrow> string \<Rightarrow> error + ('a, 'w) Metadata" where
  "relay self target =
     (case find_instance (metadata_interfaces self) target DEFAULT_PRIORITIES of
        None \<Rightarrow> Inl NotSupportedError
      | Some inst \<Rightarrow> Inr inst)"

text \<open>An argument of a call: left out, so that the parameter's default applies, or passed.\<close>

datatype 'a arg = Omitted | Passed 'a

text \<open>
  \<^verbatim>\<open>async def artwork(self, width=512, height=None)\<close>:
  \<^verbatim>\<open>return await self.relay("artwork")(width=width, height=height)\<close>
\<close>

definition artwork ::
  "('a, 'w) FacadeMetadata \<Rightarrow> int option arg \<Rightarrow> int option arg \<Rightarrow> 'w
     \<Rightarrow> (error + 'a option) \<times> 'w" where
  "artwork self width height w =
     (let width' = (case width of Omitted \<Rightarrow> Some 512 | Passed x \<Rightarrow> x);
          height' = (case height of Omitted \<Rightarrow> None | Passed x \<Rightarrow> x)
      in case relay self ''artwork'' of
           Inl e \<Rightarrow> (Inl e, w)
         | Inr inst \<Rightarrow> instance_artwork inst width' height' w)"

section \<open>FacadeAppleTV\<close>

text \<open>
  \<^verbatim>\<open>SetupData\<close>: the connect routine, the close routine and the feature set of a protocol.
  A routine acts on the outside world and may raise.
\<close>

type_synonym 'w routine = "'w \<Rightarrow> error option \<times> 'w"

type_synonym ('f, 'w) SetupData = "'w routine \<times> 'w routine \<times> 'f list"

text \<open>
  What the facade does to its collaborators, in the order it does it: the connect or close
  routine stored under a protocol was invoked, or the close of the session manager was
  scheduled (\<^verbatim>\<open>asyncio.ensure_future(self._session_manager.close())\<close>, taken not to raise).
\<close>

datatype event = ConnectCalled Protocol | CloseCalled Protocol | SessionCloseScheduled

text \<open>
  \<^verbatim>\<open>conf.AppleTV\<close> is declared outside the given sources; the facade only calls its
  \<^verbatim>\<open>get_service(protocol)\<close>, which yields a service record or \<^verbatim>\<open>None\<close>.
\<close>

record 'v AppleTV =
  get_service :: "Protocol \<Rightarrow> 'v option"

text \<open>
  \<^verbatim>\<open>self._protocol_handlers\<close> is a dict, which keeps its keys in the order they were first
  inserted: an association list with one entry per key.
\<close>

record ('f, 'w, 'v) FacadeAppleTV =
  config :: "'v AppleTV"
  protocol_handlers :: "(Protocol \<times> ('f, 'w) SetupData) list"
  facade_features :: "('f, 'w) FacadeFeatures"

text \<open>\<^verbatim>\<open>d[k] = v\<close>: a present key keeps its place and gets the value, a new key goes last.\<close>

fun dict_set :: "('k \<times> 'v) list \<Rightarrow> 'k \<Rightarrow> 'v \<Rightarrow> ('k \<times> 'v) list" where
  "dict_set [] k v = [(k, v)]"
| "dict_set ((k', v') # d) k v =
     (if k' = k then (k, v) # d else (k', v') # dict_set d k v)"

definition add_protocol ::
  "('f, 'w, 'v) FacadeAppleTV \<Rightarrow> Protocol \<Rightarrow> ('f, 'w) SetupData
     \<Rightarrow> error option \<times> ('f, 'w, 'v) FacadeAppleTV" where
  "add_protocol self protocol setup_data =
     (let self' = self\<lparr>protocol_handlers := dict_set (protocol_handlers self) protocol setup_data\<rparr>
      in case add_mapping (facade_features self') protocol (snd (snd setup_data)) of
           (r, ff) \<Rightarrow> (r, self'\<lparr>facade_features := ff\<rparr>))"

text \<open>
  \<^verbatim>\<open>for protocol_connect, _, _ in self._protocol_handlers.values(): await protocol_connect()\<close>.
  The state is the outside world and the events so far; an exception ends the loop.
\<close>

fun connect_loop ::
  "(Protocol \<times> ('f, 'w) SetupData) list \<Rightarrow> 'w \<times> event list
     \<Rightarrow> error option \<times> ('w \<times> event list)" where
  "connect_loop [] s = (None, s)"
| "connect_loop ((protocol, (protocol_connect, _, _)) # rest) s =
     (case protocol_connect (fst s) of
        (Some e, w') \<Rightarrow> (Some e, (w', snd s @ [ConnectCalled protocol]))
      | (None, w') \<Rightarrow> connect_loop rest (w', snd s @ [ConnectCalled protocol]))"

definition connect ::
  "('f, 'w, 'v) FacadeAppleTV \<Rightarrow> 'w \<times> event list \<Rightarrow> error option \<times> ('w \<times> event list)" where
  "connect self s = connect_loop (protocol_handlers self) s"

text \<open>\<^verbatim>\<open>for _, protocol_close, _ in self._protocol_handlers.values(): protocol_close()\<close>\<close>

fun close_loop ::
  "(Protocol \<times> ('f, 'w) SetupData) list \<Rightarrow> 'w \<times> event list
     \<Rightarrow> error option \<times> ('w \<times> event list)" where
  "close_loop [] s = (None, s)"
| "close_loop ((protocol, (_, protocol_close, _)) # rest) s =
     (case protocol_close (fst s) of
        (Some e, w') \<Rightarrow> (Some e, (w', snd s @ [CloseCalled protocol]))
      | (None, w') \<Rightarrow> close_loop rest (w', snd s @ [CloseCalled protocol]))"

definition close ::
  "('f, 'w, 'v) FacadeAppleTV \<Rightarrow> 'w \<times> event list \<Rightarrow> error option \<times> ('w \<times> event list)" where
  "close self s =
     close_loop (protocol_handlers self) (fst s, snd s @ [SessionCloseScheduled])"

text \<open>
  The \<^verbatim>\<open>service\<close> property: the loop over \<^verbatim>\<open>DEFAULT_PRIORITIES\<close>, and the
  \<^verbatim>\<open>RuntimeError("no service (bug)")\<close> after it.
\<close>

fun service_loop :: "'v AppleTV \<Rightarrow> Protocol list \<Rightarrow> error + 'v" where
  "service_loop cfg [] = Inl (RuntimeError ''no service (bug)'')"
| "service_loop cfg (protocol # rest) =
     (case get_service cfg protocol of
        Some s \<Rightarrow> Inr s
      | None \<Rightarrow> service_loop cfg rest)"

definition service :: "('f, 'w, 'v) FacadeAppleTV \<Rightarrow> error + 'v" where
  "service self = service_loop (config self) DEFAULT_PRIORITIES"

section \<open>Callers and example objects\<close>

text \<open>
  A caller that makes several \<^verbatim>\<open>add_mapping\<close> calls one after the other; an exception ends
  the sequence.
\<close>

fun add_mappings ::
  "('f, 'w) FacadeFeatures \<Rightarrow> (Protocol \<times> 'f list) list \<Rightarrow> error option \<times> ('f, 'w) FacadeFeatures" where
  "add_mappings self [] = (None, self)"
| "add_mappings self ((protocol, feature_set) # rest) =
     (case add_mapping self protocol feature_set of
        (Some e, self') \<Rightarrow> (Some e, self')
      | (None, self') \<Rightarrow> add_mappings self' rest)"

text \<open>Instances, facades, routines and configurations for the concrete evaluations below.\<close>

definition example_instance :: "nat \<Rightarrow> (string, nat list) Features" where
  "example_instance n = Features n (\<lambda>w f. Inr \<lparr>state = Available, options = Map.empty\<rparr>)"

definition failing_instance :: "(string, nat list) Features" where
  "failing_instance = Features 9 (\<lambda>w f. Inl (BackendError ''not connected''))"

definition example_features :: "(string, nat list) FacadeFeatures" where
  "example_features =
     \<lparr>interfaces = [MRP \<mapsto> example_instance 1, AirPlay \<mapsto> example_instance 2],
      feature_map = Map.empty\<rparr>"

definition claimed_features :: "(string, nat list) FacadeFeatures" where
  "claimed_features =
     \<lparr>interfaces = [MRP \<mapsto> example_instance 1, AirPlay \<mapsto> example_instance 2],
      feature_map = [''Play'' \<mapsto> (MRP, example_instance 1), ''Stop'' \<mapsto> (AirPlay, failing_instance)]\<rparr>"

definition ok_routine :: "nat list routine" where
  "ok_routine w = (None, w)"

definition connect_routine :: "nat \<Rightarrow> nat list routine" where
  "connect_routine n w = (None, w @ [n])"

definition failing_routine :: "string \<Rightarrow> nat list routine" where
  "failing_routine msg w = (Some (BackendError msg), w)"

definition no_services :: "string AppleTV" where
  "no_services = \<lparr>get_service = (\<lambda>p. None)\<rparr>"

definition example_atv :: "(string, nat list, string) FacadeAppleTV" where
  "example_atv =
     \<lparr>config = no_services,
      protocol_handlers =
        [(AirPlay, (connect_routine 1, failing_routine ''close failed'', [''Play''])),
         (MRP, (failing_routine ''refused'', ok_routine, [''Stop''])),
         (DMAP, (connect_routine 3, ok_routine, []))],
      facade_features = \<lparr>interfaces = Map.empty, feature_map = Map.empty\<rparr>\<rparr>"

definition fresh_atv :: "(string, nat list, string) FacadeAppleTV" where
  "fresh_atv =
     \<lparr>config = no_services,
      protocol_handlers = [],
      facade_features = \<lparr>interfaces = [MRP \<mapsto> example_instance 1], feature_map = Map.empty\<rparr>\<rparr>"

definition raop_atv :: "(string, nat list, string) FacadeAppleTV" where
  "raop_atv =
     \<lparr>config = \<lparr>get_service = (\<lambda>p. if p = RAOP then Some ''raop'' else None)\<rparr>,
      protocol_handlers = [],
      facade_features = \<lparr>interfaces = Map.empty, feature_map = Map.empty\<rparr>\<rparr>"

definition first_record :: "(string, nat list) SetupData" where
  "first_record = (connect_routine 1, ok_routine, [''Play''])"

definition second_record :: "(string, nat list) SetupData" where
  "second_record = (connect_routine 2, ok_routine, [''Pause''])"

definition companion_airplay_atv :: "(string, nat list, string) FacadeAppleTV" where
  "companion_airplay_atv =
     \<lparr>config = \<lparr>get_service = (\<lambda>p. if p = AirPlay then Some ''airplay''
                                  else if p = Companion then Some ''companion'' else None)\<rparr>,
      protocol_handlers = [],
      facade_features = \<lparr>interfaces = Map.empty, feature_map = Map.empty\<rparr>\<rparr>"

definition printing_listener :: "(nat, (nat \<times> nat) list) PowerListener" where
  "printing_listener = PowerListener (\<lambda>old_state new_state w. (None, w @ [(old_state, new_state)]))"

definition echo_backend :: "(int option \<times> int option, unit) Metadata" where
  "echo_backend = Metadata [''artwork'', ''playing''] (\<lambda>width height w. (Inr (Some (width, height)), w))"

definition example_metadata :: "(int option \<times> int option, unit) FacadeMetadata" where
  "example_metadata = \<lparr>metadata_interfaces = [DMAP \<mapsto> echo_backend]\<rparr>"

section \<open>Priorities\<close>

lemma list_index_priorities:
  "list_index DEFAULT_PRIORITIES MRP = Inr 0"
  "list_index DEFAULT_PRIORITIES DMAP = Inr 1"
  "list_index DEFAULT_PRIORITIES Companion = Inr 2"
  "list_index DEFAULT_PRIORITIES AirPlay = Inr 3"
  "list_index DEFAULT_PRIORITIES RAOP = Inl ValueError"
  by (simp_all add: DEFAULT_PRIORITIES_def)

lemma has_higher_priority_irrefl: "has_higher_priority p p \<noteq> Inr True"
  by (cases p) (simp_all add: has_higher_priority_def list_index_priorities)

lemma has_higher_priority_total:
  "p \<in> set DEFAULT_PRIORITIES \<Longrightarrow> q \<in> set DEFAULT_PRIORITIES \<Longrightarrow>
     has_higher_priority p q = Inr True \<or> has_higher_priority p q = Inr False"
  by (cases p; cases q) (simp_all add: has_higher_priority_def list_index_priorities DEFAULT_PRIORITIES_def)

lemma has_higher_priority_in_list:
  "has_higher_priority p q = Inr b \<Longrightarrow> p \<in> set DEFAULT_PRIORITIES \<and> q \<in> set DEFAULT_PRIORITIES"
  by (cases p; cases q) (simp_all add: has_higher_priority_def list_index_priorities DEFAULT_PRIORITIES_def)

lemma has_higher_priority_asym:
  "has_higher_priority p q = Inr True \<Longrightarrow> has_higher_priority q p = Inr False"
  by (cases p; cases q) (simp_all add: has_higher_priority_def list_index_priorities)

section \<open>The feature map\<close>

text \<open>
  What one run of the loop does to an entry that is already there: it stays, or the adding
  protocol, being of strictly higher priority, takes it.
\<close>

lemma add_mapping_loop_entry:
  "fm f = Some (p0, i0) \<Longrightarrow> add_mapping_loop p i fs fm = (r, fm') \<Longrightarrow>
     fm' f = Some (p0, i0) \<or> (has_higher_priority p p0 = Inr True \<and> fm' f = Some (p, i))"
proof (induction fs arbitrary: fm p0 i0)
  case Nil
  then show ?case by simp
next
  case (Cons x fs)
  show ?case
  proof (cases "fm x")
    case None
    with Cons.prems have "x \<noteq> f" by auto
    then have keep: "(fm(x \<mapsto> (p, i))) f = Some (p0, i0)" using Cons.prems by simp
    from Cons.prems None
    have run: "add_mapping_loop p i fs (fm(x \<mapsto> (p, i))) = (r, fm')" by simp
    from Cons.IH[OF keep run] show ?thesis .
  next
    case (Some holder)
    show ?thesis
    proof (cases "has_higher_priority p (fst holder)")
      case (Inl e)
      with Cons.prems Some show ?thesis by simp
    next
      case (Inr b)
      show ?thesis
      proof (cases b)
        case False
        with Cons.prems Some Inr have run: "add_mapping_loop p i fs fm = (r, fm')" by simp
        from Cons.IH[OF Cons.prems(1) run] show ?thesis .
      next
        case True
        show ?thesis
        proof (cases "x = f")
          case False
          then have keep: "(fm(x \<mapsto> (p, i))) f = Some (p0, i0)" using Cons.prems by simp
          from Cons.prems Some Inr True
          have run: "add_mapping_loop p i fs (fm(x \<mapsto> (p, i))) = (r, fm')" by simp
          from Cons.IH[OF keep run] show ?thesis .
        next
          case xf: True
          with Cons.prems Some have h: "holder = (p0, i0)" by simp
          from Cons.prems Some Inr True
          have run: "add_mapping_loop p i fs (fm(x \<mapsto> (p, i))) = (r, fm')" by simp
          from xf have "(fm(x \<mapsto> (p, i))) f = Some (p, i)" by simp
          from Cons.IH[OF this run] have "fm' f = Some (p, i)" by auto
          with Inr True h show ?thesis by simp
        qed
      qed
    qed
  qed
qed

text \<open>
  When every holder and the adding protocol are in the priority list, no comparison raises
  and the loop has a closed form, whatever the iteration order of the feature set.
\<close>

lemma add_mapping_loop_closed:
  assumes "p \<in> set DEFAULT_PRIORITIES"
    and "\<forall>g q j. fm g = Some (q, j) \<longrightarrow> q \<in> set DEFAULT_PRIORITIES"
  shows "add_mapping_loop p i fs fm =
    (None, \<lambda>g. if g \<in> set fs \<and> (case fm g of None \<Rightarrow> True | Some holder \<Rightarrow> has_higher_priority p (fst holder) = Inr True) then Some (p, i) else fm g)"
  using assms
proof (induction fs arbitrary: fm)
  case Nil
  then show ?case by simp
next
  case (Cons x fs)
  let ?fm1 = "fm(x \<mapsto> (p, i))"
  have inv1: "\<forall>g q j. ?fm1 g = Some (q, j) \<longrightarrow> q \<in> set DEFAULT_PRIORITIES"
    using Cons.prems by auto
  have self_no: "has_higher_priority p p \<noteq> Inr True" by (rule has_higher_priority_irrefl)
  show ?case
  proof (cases "fm x")
    case None
    then have "add_mapping_loop p i (x # fs) fm = add_mapping_loop p i fs ?fm1" by simp
    also have "\<dots> = (None, \<lambda>g. if g \<in> set fs \<and> (case ?fm1 g of None \<Rightarrow> True | Some holder \<Rightarrow> has_higher_priority p (fst holder) = Inr True) then Some (p, i) else ?fm1 g)"
      by (rule Cons.IH[OF Cons.prems(1) inv1])
    also have "\<dots> = (None, \<lambda>g. if g \<in> set (x # fs) \<and> (case fm g of None \<Rightarrow> True | Some holder \<Rightarrow> has_higher_priority p (fst holder) = Inr True) then Some (p, i) else fm g)"
      using None self_no by (auto simp: fun_eq_iff)
    finally show ?thesis .
  next
    case (Some holder)
    obtain q j where h: "holder = (q, j)" by (cases holder)
    with Some Cons.prems have "q \<in> set DEFAULT_PRIORITIES" by auto
    from has_higher_priority_total[OF Cons.prems(1) this]
    consider (hi) "has_higher_priority p q = Inr True" | (lo) "has_higher_priority p q = Inr False"
      by blast
    then show ?thesis
    proof cases
      case hi
      with Some h have "add_mapping_loop p i (x # fs) fm = add_mapping_loop p i fs ?fm1" by simp
      also have "\<dots> = (None, \<lambda>g. if g \<in> set fs \<and> (case ?fm1 g of None \<Rightarrow> True | Some holder \<Rightarrow> has_higher_priority p (fst holder) = Inr True) then Some (p, i) else ?fm1 g)"
        by (rule Cons.IH[OF Cons.prems(1) inv1])
      also have "\<dots> = (None, \<lambda>g. if g \<in> set (x # fs) \<and> (case fm g of None \<Rightarrow> True | Some holder \<Rightarrow> has_higher_priority p (fst holder) = Inr True) then Some (p, i) else fm g)"
        using Some h hi self_no by (auto simp: fun_eq_iff)
      finally show ?thesis .
    next
      case lo
      with Some h have "add_mapping_loop p i (x # fs) fm = add_mapping_loop p i fs fm" by simp
      also have "\<dots> = (None, \<lambda>g. if g \<in> set fs \<and> (case fm g of None \<Rightarrow> True | Some holder \<Rightarrow> has_higher_priority p (fst holder) = Inr True) then Some (p, i) else fm g)"
        by (rule Cons.IH[OF Cons.prems(1) Cons.prems(2)])
      also have "\<dots> = (None, \<lambda>g. if g \<in> set (x # fs) \<and> (case fm g of None \<Rightarrow> True | Some holder \<Rightarrow> has_higher_priority p (fst holder) = Inr True) then Some (p, i) else fm g)"
        using Some h lo by (auto simp: fun_eq_iff)
      finally show ?thesis .
    qed
  qed
qed

lemma add_mapping_closed:
  assumes "p \<in> set DEFAULT_PRIORITIES"
    and "\<forall>g q j. feature_map self g = Some (q, j) \<longrightarrow> q \<in> set DEFAULT_PRIORITIES"
    and "get self p = Some i"
  shows "add_mapping self p fs =
    (None, self\<lparr>feature_map := \<lambda>g. if g \<in> set fs \<and> (case feature_map self g of None \<Rightarrow> True | Some holder \<Rightarrow> has_higher_priority p (fst holder) = Inr True) then Some (p, i) else feature_map self g\<rparr>)"
  using assms by (simp add: add_mapping_def add_mapping_loop_closed)

lemma add_mapping_keeps_own_entries:
  assumes "feature_map self f = Some (protocol, inst)"
  shows "feature_map (snd (add_mapping self protocol feature_set)) f = Some (protocol, inst)"
proof (cases "get self protocol")
  case None
  with assms show ?thesis by (simp add: add_mapping_def)
next
  case (Some i)
  obtain r fm' where run: "add_mapping_loop protocol i feature_set (feature_map self) = (r, fm')"
    by (cases "add_mapping_loop protocol i feature_set (feature_map self)")
  from add_mapping_loop_entry[OF assms run] has_higher_priority_irrefl[of protocol]
  have "fm' f = Some (protocol, inst)" by blast
  with Some run show ?thesis by (simp add: add_mapping_def)
qed

text \<open>
  When the loop returns, a feature of the set that was not held, or was held by a protocol
  of lower priority, is held by the adding protocol's instance.
\<close>

lemma add_mapping_loop_own_entry:
  assumes "fm f = Some (p, i)" and "add_mapping_loop p i fs fm = (r, fm')"
  shows "fm' f = Some (p, i)"
  using add_mapping_loop_entry[OF assms] by blast

lemma add_mapping_loop_takes:
  "add_mapping_loop p i fs fm = (None, fm') \<Longrightarrow> f \<in> set fs \<Longrightarrow>
     fm f = None \<or> (\<exists>q j. fm f = Some (q, j) \<and> has_higher_priority p q = Inr True) \<Longrightarrow>
     fm' f = Some (p, i)"
proof (induction fs arbitrary: fm)
  case Nil
  then show ?case by simp
next
  case (Cons x fs)
  let ?fm1 = "fm(x \<mapsto> (p, i))"
  show ?case
  proof (cases "fm x")
    case None
    with Cons.prems(1) have run: "add_mapping_loop p i fs ?fm1 = (None, fm')" by simp
    show ?thesis
    proof (cases "x = f")
      case True
      then have "?fm1 f = Some (p, i)" by simp
      from add_mapping_loop_own_entry[OF this run] show ?thesis .
    next
      case False
      with Cons.prems(2) have in_fs: "f \<in> set fs" by simp
      from False Cons.prems(3)
      have "?fm1 f = None \<or> (\<exists>q j. ?fm1 f = Some (q, j) \<and> has_higher_priority p q = Inr True)"
        by simp
      from Cons.IH[OF run in_fs this] show ?thesis .
    qed
  next
    case (Some holder)
    show ?thesis
    proof (cases "has_higher_priority p (fst holder)")
      case (Inl e)
      with Cons.prems(1) Some show ?thesis by simp
    next
      case (Inr b)
      show ?thesis
      proof (cases b)
        case True
        with Cons.prems(1) Some Inr have run: "add_mapping_loop p i fs ?fm1 = (None, fm')" by simp
        show ?thesis
        proof (cases "x = f")
          case True
          then have "?fm1 f = Some (p, i)" by simp
          from add_mapping_loop_own_entry[OF this run] show ?thesis .
        next
          case False
          with Cons.prems(2) have in_fs: "f \<in> set fs" by simp
          from False Cons.prems(3)
          have "?fm1 f = None \<or> (\<exists>q j. ?fm1 f = Some (q, j) \<and> has_higher_priority p q = Inr True)"
            by simp
          from Cons.IH[OF run in_fs this] show ?thesis .
        qed
      next
        case False
        with Cons.prems(1) Some Inr have run: "add_mapping_loop p i fs fm = (None, fm')" by simp
        have "x \<noteq> f"
        proof
          assume "x = f"
          with Some Cons.prems(3) Inr False show False by (cases holder) auto
        qed
        with Cons.prems(2) have in_fs: "f \<in> set fs" by simp
        from Cons.IH[OF run in_fs Cons.prems(3)] show ?thesis .
      qed
    qed
  qed
qed

lemma add_mapping_takes:
  assumes "fst (add_mapping self protocol feature_set) = None"
    and "get self protocol = Some inst"
    and "f \<in> set feature_set"
    and "feature_map self f = None
         \<or> (\<exists>q j. feature_map self f = Some (q, j) \<and> has_higher_priority protocol q = Inr True)"
  shows "feature_map (snd (add_mapping self protocol feature_set)) f = Some (protocol, inst)"
proof -
  obtain r fm' where run: "add_mapping_loop protocol inst feature_set (feature_map self) = (r, fm')"
    by (cases "add_mapping_loop protocol inst feature_set (feature_map self)")
  with assms(1,2) have "r = None" by (simp add: add_mapping_def)
  with run have "add_mapping_loop protocol inst feature_set (feature_map self) = (None, fm')" by simp
  from add_mapping_loop_takes[OF this assms(3,4)] run assms(2) show ?thesis
    by (simp add: add_mapping_def)
qed

text \<open>
  C1. Let B2 have higher priority than B1 (both in the priority list), let both have a
  registered Features instance, and let both declare the feature F. Start from a feature
  map whose holders are all in the priority list and in which F is not held, or is held by
  a protocol of lower priority than B2. Then calling \<^verbatim>\<open>add_mapping\<close> for B1 first and B2
  second, or for B2 first and B1 second, raises nothing and leaves F with B2's instance:
  \<^verbatim>\<open>get_feature(F)\<close> is B2's answer in both orders, for every iteration order of the two
  feature sets.
\<close>

theorem get_feature_order_independent:
  assumes "has_higher_priority B2 B1 = Inr True"
    and "get self B1 = Some i1" and "get self B2 = Some i2"
    and "F \<in> set S1" and "F \<in> set S2"
    and "\<forall>p i. feature_map self F = Some (p, i) \<longrightarrow> has_higher_priority B2 p = Inr True"
    and "\<forall>g p i. feature_map self g = Some (p, i) \<longrightarrow> p \<in> set DEFAULT_PRIORITIES"
  shows "fst (add_mappings self [(B1, S1), (B2, S2)]) = None
       \<and> fst (add_mappings self [(B2, S2), (B1, S1)]) = None
       \<and> feature_map (snd (add_mappings self [(B1, S1), (B2, S2)])) F = Some (B2, i2)
       \<and> feature_map (snd (add_mappings self [(B2, S2), (B1, S1)])) F = Some (B2, i2)
       \<and> get_feature (snd (add_mappings self [(B1, S1), (B2, S2)])) w F = instance_get_feature i2 w F
       \<and> get_feature (snd (add_mappings self [(B2, S2), (B1, S1)])) w F = instance_get_feature i2 w F"
proof -
  from assms(1) have in1: "B1 \<in> set DEFAULT_PRIORITIES" and in2: "B2 \<in> set DEFAULT_PRIORITIES"
    using has_higher_priority_in_list by blast+
  from assms(1) have lo: "has_higher_priority B1 B2 = Inr False"
    by (rule has_higher_priority_asym)
  let ?a = "self\<lparr>feature_map := \<lambda>g. if g \<in> set S1 \<and> (case feature_map self g of None \<Rightarrow> True | Some holder \<Rightarrow> has_higher_priority B1 (fst holder) = Inr True) then Some (B1, i1) else feature_map self g\<rparr>"
  let ?b = "self\<lparr>feature_map := \<lambda>g. if g \<in> set S2 \<and> (case feature_map self g of None \<Rightarrow> True | Some holder \<Rightarrow> has_higher_priority B2 (fst holder) = Inr True) then Some (B2, i2) else feature_map self g\<rparr>"
  have a: "add_mapping self B1 S1 = (None, ?a)"
    by (rule add_mapping_closed[OF in1 assms(7) assms(2)])
  have b: "add_mapping self B2 S2 = (None, ?b)"
    by (rule add_mapping_closed[OF in2 assms(7) assms(3)])
  have inva: "\<forall>g p i. feature_map ?a g = Some (p, i) \<longrightarrow> p \<in> set DEFAULT_PRIORITIES"
    using assms(7) in1 by (auto split: if_splits)
  have invb: "\<forall>g p i. feature_map ?b g = Some (p, i) \<longrightarrow> p \<in> set DEFAULT_PRIORITIES"
    using assms(7) in2 by (auto split: if_splits)
  have geta: "get ?a B2 = Some i2" using assms(3) by (simp add: get_def)
  have getb: "get ?b B1 = Some i1" using assms(2) by (simp add: get_def)
  note ab = add_mapping_closed[OF in2 inva geta, of S2]
  note ba = add_mapping_closed[OF in1 invb getb, of S1]
  have r1: "fst (add_mappings self [(B1, S1), (B2, S2)]) = None"
    by (simp add: a ab)
  have r2: "fst (add_mappings self [(B2, S2), (B1, S1)]) = None"
    by (simp add: b ba)
  have wins: "case feature_map self F of None \<Rightarrow> True
      | Some holder \<Rightarrow> has_higher_priority B2 (fst holder) = Inr True"
    using assms(6) by (auto split: option.splits)
  have f1: "feature_map (snd (add_mappings self [(B1, S1), (B2, S2)])) F = Some (B2, i2)"
    using assms(1,4,5) wins by (simp add: a ab)
  have f2: "feature_map (snd (add_mappings self [(B2, S2), (B1, S1)])) F = Some (B2, i2)"
    using lo assms(4,5) wins by (simp add: b ba)
  from r1 r2 f1 f2 show ?thesis by (simp add: get_feature_def)
qed

theorem get_feature_order_independent_witness:
  "has_higher_priority MRP AirPlay = Inr True
   \<and> get claimed_features AirPlay = Some (example_instance 2)
   \<and> get claimed_features MRP = Some (example_instance 1)
   \<and> feature_map claimed_features ''Stop'' = Some (AirPlay, failing_instance)
   \<and> feature_map (snd (add_mappings claimed_features [(AirPlay, [''Play'', ''Stop'']), (MRP, [''Stop''])])) ''Stop''
       = Some (MRP, example_instance 1)
   \<and> feature_map (snd (add_mappings claimed_features [(MRP, [''Stop'']), (AirPlay, [''Play'', ''Stop''])])) ''Stop''
       = Some (MRP, example_instance 1)
   \<and> get_feature (snd (add_mappings claimed_features [(MRP, [''Stop'']), (AirPlay, [''Play'', ''Stop''])])) [] ''Stop''
       = Inr \<lparr>state = Available, options = Map.empty\<rparr>"
  using get_feature_order_independent[of MRP AirPlay claimed_features "example_instance 2"
      "example_instance 1" "''Stop''" "[''Play'', ''Stop'']" "[''Stop'']" "[]"]
  by (simp add: has_higher_priority_def DEFAULT_PRIORITIES_def get_def claimed_features_def
      example_instance_def)

text \<open>
  C2. A call of \<^verbatim>\<open>add_mapping\<close>, whether it returns or raises, leaves an entry that was
  there before as it was, or hands it to the adding protocol, and the latter only when the
  adding protocol has strictly higher priority than the holder. A protocol of lower or
  equal priority (or one that cannot be compared) leaves the entry unchanged.
\<close>

theorem add_mapping_overwrites_only_higher_priority:
  assumes "feature_map self f = Some (p0, i0)"
    and "add_mapping self protocol feature_set = (r, self')"
  shows "(feature_map self' f = Some (p0, i0)
          \<or> (has_higher_priority protocol p0 = Inr True
              \<and> (\<exists>inst. get self protocol = Some inst \<and> feature_map self' f = Some (protocol, inst))))
       \<and> (has_higher_priority protocol p0 \<noteq> Inr True \<longrightarrow> feature_map self' f = Some (p0, i0))"
proof (cases "get self protocol")
  case None
  with assms show ?thesis by (simp add: add_mapping_def)
next
  case (Some inst)
  obtain r' fm' where run: "add_mapping_loop protocol inst feature_set (feature_map self) = (r', fm')"
    by (cases "add_mapping_loop protocol inst feature_set (feature_map self)")
  with assms(2) Some have self': "feature_map self' = fm'"
    by (auto simp: add_mapping_def)
  from add_mapping_loop_entry[OF assms(1) run] Some self' show ?thesis by auto
qed

theorem add_mapping_overwrites_only_higher_priority_witness:
  "feature_map claimed_features ''Stop'' = Some (AirPlay, failing_instance)
   \<and> has_higher_priority AirPlay MRP \<noteq> Inr True
   \<and> feature_map (snd (add_mapping claimed_features AirPlay [''Play''])) ''Play'' = Some (MRP, example_instance 1)
   \<and> has_higher_priority MRP AirPlay = Inr True
   \<and> feature_map (snd (add_mapping claimed_features MRP [''Stop''])) ''Stop'' = Some (MRP, example_instance 1)"
  using add_mapping_overwrites_only_higher_priority[of claimed_features "''Play''" MRP "example_instance 1"
      AirPlay "[''Play'']" "fst (add_mapping claimed_features AirPlay [''Play''])"
      "snd (add_mapping claimed_features AirPlay [''Play''])"]
    add_mapping_overwrites_only_higher_priority[of claimed_features "''Stop''" AirPlay failing_instance
      MRP "[''Stop'']" "fst (add_mapping claimed_features MRP [''Stop''])"
      "snd (add_mapping claimed_features MRP [''Stop''])"]
  by (simp add: has_higher_priority_def DEFAULT_PRIORITIES_def claimed_features_def get_def
      add_mapping_def)

text \<open>
  C3. For a feature name without a holder, \<^verbatim>\<open>get_feature\<close> returns the state
  \<open>Unsupported\<close> with empty options. \<^verbatim>\<open>get_feature\<close> raises nothing of its own: when it
  raises, the name has a holder and the exception is the one the holder's instance raised.
\<close>

theorem get_feature_unsupported_without_holder:
  "(feature_map self feature_name = None \<longrightarrow>
      get_feature self w feature_name = Inr \<lparr>state = Unsupported, options = Map.empty\<rparr>)
   \<and> (\<forall>e. get_feature self w feature_name = Inl e \<longrightarrow>
        (\<exists>p inst. feature_map self feature_name = Some (p, inst)
           \<and> instance_get_feature inst w feature_name = Inl e))"
  by (auto simp: get_feature_def FeatureInfo_of_def split: option.splits)

theorem get_feature_unsupported_without_holder_witness:
  "feature_map claimed_features ''Pause'' = None
   \<and> get_feature claimed_features [] ''Pause'' = Inr \<lparr>state = Unsupported, options = Map.empty\<rparr>
   \<and> get_feature claimed_features [] ''Stop'' = Inl (BackendError ''not connected'')
   \<and> (\<exists>p inst. feature_map claimed_features ''Stop'' = Some (p, inst)
           \<and> instance_get_feature inst [] ''Stop'' = Inl (BackendError ''not connected''))"
proof -
  have a: "feature_map claimed_features ''Pause'' = None"
    by (simp add: claimed_features_def)
  have b: "get_feature claimed_features [] ''Stop'' = Inl (BackendError ''not connected'')"
    by (simp add: claimed_features_def get_feature_def failing_instance_def)
  from get_feature_unsupported_without_holder[of claimed_features "''Pause''" "[]"] a
  have c: "get_feature claimed_features [] ''Pause'' = Inr \<lparr>state = Unsupported, options = Map.empty\<rparr>"
    by blast
  from get_feature_unsupported_without_holder[of claimed_features "''Stop''" "[]"] b
  have d: "\<exists>p inst. feature_map claimed_features ''Stop'' = Some (p, inst)
           \<and> instance_get_feature inst [] ''Stop'' = Inl (BackendError ''not connected'')"
    by blast
  from a b c d show ?thesis by blast
qed

section \<open>Connecting and closing\<close>

lemma dict_set_keys:
  "map fst (dict_set d k v) = (if k \<in> set (map fst d) then map fst d else map fst d @ [k])"
  by (induction d k v rule: dict_set.induct) auto

lemma dict_set_lookup: "map_of (dict_set d k v) = (map_of d)(k \<mapsto> v)"
  by (induction d k v rule: dict_set.induct) (auto simp: fun_eq_iff)

lemma connect_loop_events:
  "connect_loop hs s = (None, s') \<Longrightarrow> snd s' = snd s @ map ConnectCalled (map fst hs)"
proof (induction hs arbitrary: s)
  case Nil
  then show ?case by simp
next
  case (Cons h hs)
  obtain p c cl fs where h: "h = (p, (c, cl, fs))" by (cases h) auto
  obtain r w' where c: "c (fst s) = (r, w')" by (cases "c (fst s)")
  show ?case
  proof (cases r)
    case None
    with Cons.prems h c have "connect_loop hs (w', snd s @ [ConnectCalled p]) = (None, s')" by simp
    from Cons.IH[OF this] h show ?thesis by simp
  next
    case (Some e)
    with Cons.prems h c show ?thesis by simp
  qed
qed

lemma connect_loop_abort:
  "connect_loop pre s = (None, s1) \<Longrightarrow> fst sd (fst s1) = (Some e, w2) \<Longrightarrow>
     connect_loop (pre @ (p, sd) # post) s = (Some e, (w2, snd s1 @ [ConnectCalled p]))"
proof (induction pre arbitrary: s)
  case Nil
  obtain c cl fs where "sd = (c, cl, fs)" by (cases sd) auto
  with Nil show ?case by simp
next
  case (Cons h hs)
  obtain q c cl fs where h: "h = (q, (c, cl, fs))" by (cases h) auto
  obtain r w' where c: "c (fst s) = (r, w')" by (cases "c (fst s)")
  show ?case
  proof (cases r)
    case None
    with Cons.prems h c have "connect_loop hs (w', snd s @ [ConnectCalled q]) = (None, s1)" by simp
    from Cons.IH[OF this Cons.prems(2)] h c None show ?thesis by simp
  next
    case (Some e')
    with Cons.prems h c show ?thesis by simp
  qed
qed

lemma close_loop_events:
  "close_loop hs s = (None, s') \<Longrightarrow> snd s' = snd s @ map CloseCalled (map fst hs)"
proof (induction hs arbitrary: s)
  case Nil
  then show ?case by simp
next
  case (Cons h hs)
  obtain p c cl fs where h: "h = (p, (c, cl, fs))" by (cases h) auto
  obtain r w' where c: "cl (fst s) = (r, w')" by (cases "cl (fst s)")
  show ?case
  proof (cases r)
    case None
    with Cons.prems h c have "close_loop hs (w', snd s @ [CloseCalled p]) = (None, s')" by simp
    from Cons.IH[OF this] h show ?thesis by simp
  next
    case (Some e)
    with Cons.prems h c show ?thesis by simp
  qed
qed

lemma close_loop_abort:
  "close_loop pre s = (None, s1) \<Longrightarrow> fst (snd sd) (fst s1) = (Some e, w2) \<Longrightarrow>
     close_loop (pre @ (p, sd) # post) s = (Some e, (w2, snd s1 @ [CloseCalled p]))"
proof (induction pre arbitrary: s)
  case Nil
  obtain c cl fs where "sd = (c, cl, fs)" by (cases sd) auto
  with Nil show ?case by simp
next
  case (Cons h hs)
  obtain q c cl fs where h: "h = (q, (c, cl, fs))" by (cases h) auto
  obtain r w' where c: "cl (fst s) = (r, w')" by (cases "cl (fst s)")
  show ?case
  proof (cases r)
    case None
    with Cons.prems h c have "close_loop hs (w', snd s @ [CloseCalled q]) = (None, s1)" by simp
    from Cons.IH[OF this Cons.prems(2)] h c None show ?thesis by simp
  next
    case (Some e')
    with Cons.prems h c show ?thesis by simp
  qed
qed

text \<open>
  C4. \<^verbatim>\<open>connect\<close> invokes the connect routines one after the other in the order of the
  handler dict, which is the order in which the protocols were first added, not the
  priority order. When all succeed, the events are exactly one connect per protocol in
  that order. When the routines before some protocol succeed and its own routine raises,
  \<^verbatim>\<open>connect\<close> raises that exception, the routines after it are not invoked, no close
  routine is invoked, and the world is left as the failing routine left it.
\<close>

theorem connect_in_registration_order_until_failure:
  "(connect self s = (None, s') \<longrightarrow>
      snd s' = snd s @ map ConnectCalled (map fst (protocol_handlers self)))
   \<and> (protocol_handlers self = pre @ (p, sd) # post \<and> connect_loop pre s = (None, s1)
        \<and> fst sd (fst s1) = (Some e, w2) \<longrightarrow>
      connect self s = (Some e, (w2, snd s @ map ConnectCalled (map fst pre @ [p]))))
   \<and> map fst (protocol_handlers (snd (add_protocol self protocol setup_data))) =
       (if protocol \<in> set (map fst (protocol_handlers self)) then map fst (protocol_handlers self)
        else map fst (protocol_handlers self) @ [protocol])"
proof (intro conjI impI)
  assume "connect self s = (None, s')"
  then show "snd s' = snd s @ map ConnectCalled (map fst (protocol_handlers self))"
    by (simp add: connect_def connect_loop_events)
next
  assume a: "protocol_handlers self = pre @ (p, sd) # post \<and> connect_loop pre s = (None, s1)
        \<and> fst sd (fst s1) = (Some e, w2)"
  then have "connect_loop (pre @ (p, sd) # post) s = (Some e, (w2, snd s1 @ [ConnectCalled p]))"
    by (simp add: connect_loop_abort)
  moreover from a have "connect_loop pre s = (None, s1)" by simp
  then have "snd s1 = snd s @ map ConnectCalled (map fst pre)"
    by (rule connect_loop_events)
  ultimately show "connect self s = (Some e, (w2, snd s @ map ConnectCalled (map fst pre @ [p])))"
    using a by (simp add: connect_def)
next
  show "map fst (protocol_handlers (snd (add_protocol self protocol setup_data))) =
       (if protocol \<in> set (map fst (protocol_handlers self)) then map fst (protocol_handlers self)
        else map fst (protocol_handlers self) @ [protocol])"
    by (simp add: add_protocol_def Let_def dict_set_keys split: prod.splits)
qed

theorem connect_in_registration_order_until_failure_witness:
  "protocol_handlers example_atv =
     [(AirPlay, (connect_routine 1, failing_routine ''close failed'', [''Play'']))]
       @ (MRP, (failing_routine ''refused'', ok_routine, [''Stop''])) # [(DMAP, (connect_routine 3, ok_routine, []))]
   \<and> connect example_atv ([], []) =
       (Some (BackendError ''refused''), ([1], [ConnectCalled AirPlay, ConnectCalled MRP]))
   \<and> connect (example_atv\<lparr>protocol_handlers := [(AirPlay, (connect_routine 1, ok_routine, [])), (DMAP, (connect_routine 3, ok_routine, []))]\<rparr>) ([], [])
       = (None, ([1, 3], [ConnectCalled AirPlay, ConnectCalled DMAP]))"
proof -
  have h: "protocol_handlers example_atv =
     [(AirPlay, (connect_routine 1, failing_routine ''close failed'', [''Play'']))]
       @ (MRP, (failing_routine ''refused'', ok_routine, [''Stop''])) # [(DMAP, (connect_routine 3, ok_routine, []))]"
    by (simp add: example_atv_def)
  have pre: "connect_loop [(AirPlay, (connect_routine 1, failing_routine ''close failed'', [''Play'']))] ([], [])
      = (None, ([1], [ConnectCalled AirPlay]))"
    by (simp add: connect_routine_def)
  have f: "fst (failing_routine ''refused'', ok_routine, [''Stop'']) (fst ([1::nat], [ConnectCalled AirPlay]))
      = (Some (BackendError ''refused''), [1])"
    by (simp add: failing_routine_def)
  have ok: "connect (example_atv\<lparr>protocol_handlers := [(AirPlay, (connect_routine 1, ok_routine, [])), (DMAP, (connect_routine 3, ok_routine, []))]\<rparr>) ([], [])
       = (None, ([1, 3], [ConnectCalled AirPlay, ConnectCalled DMAP]))"
    by (simp add: connect_def connect_routine_def)
  from connect_in_registration_order_until_failure[of example_atv "([], [])" _
      "[(AirPlay, (connect_routine 1, failing_routine ''close failed'', [''Play'']))]" MRP
      "(failing_routine ''refused'', ok_routine, [''Stop''])" "[(DMAP, (connect_routine 3, ok_routine, []))]"
      "([1], [ConnectCalled AirPlay])" "BackendError ''refused''" "[1]"] h pre f
  have "connect example_atv ([], []) =
       (Some (BackendError ''refused''), ([1], [ConnectCalled AirPlay, ConnectCalled MRP]))"
    by simp
  moreover
  from connect_in_registration_order_until_failure[of
      "example_atv\<lparr>protocol_handlers := [(AirPlay, (connect_routine 1, ok_routine, [])), (DMAP, (connect_routine 3, ok_routine, []))]\<rparr>"
      "([], [])" "([1, 3], [ConnectCalled AirPlay, ConnectCalled DMAP])"] ok
  have "snd ([1::nat, 3], [ConnectCalled AirPlay, ConnectCalled DMAP]) = snd (([]::nat list), []) @ map ConnectCalled [AirPlay, DMAP]"
    by simp
  ultimately show ?thesis using h ok by simp
qed

text \<open>
  With three protocols registered and the first close routine raising, \<^verbatim>\<open>close\<close> invokes
  one close routine, not three: the exception leaves the loop.
\<close>

theorem close_stops_at_first_failure_counterexample:
  "close example_atv ([], []) =
     (Some (BackendError ''close failed''), ([], [SessionCloseScheduled, CloseCalled AirPlay]))
   \<and> length (protocol_handlers example_atv) = 3"
  by (simp add: close_def example_atv_def failing_routine_def)

text \<open>
  C5, as the code has it. \<^verbatim>\<open>close\<close> schedules the close of the session manager and then
  invokes the close routines in the order of the handler dict. When none raises, every
  registered protocol's close routine has been invoked exactly once. When one raises, the
  routines before it have been invoked once each, the exception goes to the caller, and
  the routines after it are not invoked.
\<close>

theorem close_in_registration_order_until_failure:
  "(close self s = (None, s') \<longrightarrow>
      snd s' = snd s @ SessionCloseScheduled # map CloseCalled (map fst (protocol_handlers self)))
   \<and> (protocol_handlers self = pre @ (p, sd) # post
        \<and> close_loop pre (fst s, snd s @ [SessionCloseScheduled]) = (None, s1)
        \<and> fst (snd sd) (fst s1) = (Some e, w2) \<longrightarrow>
      close self s =
        (Some e, (w2, snd s @ SessionCloseScheduled # map CloseCalled (map fst pre @ [p]))))"
proof (intro conjI impI)
  assume "close self s = (None, s')"
  then have "close_loop (protocol_handlers self) (fst s, snd s @ [SessionCloseScheduled]) = (None, s')"
    by (simp add: close_def)
  from close_loop_events[OF this]
  show "snd s' = snd s @ SessionCloseScheduled # map CloseCalled (map fst (protocol_handlers self))"
    by simp
next
  assume a: "protocol_handlers self = pre @ (p, sd) # post
        \<and> close_loop pre (fst s, snd s @ [SessionCloseScheduled]) = (None, s1)
        \<and> fst (snd sd) (fst s1) = (Some e, w2)"
  then have run: "close_loop pre (fst s, snd s @ [SessionCloseScheduled]) = (None, s1)"
    and f: "fst (snd sd) (fst s1) = (Some e, w2)" by simp_all
  from close_loop_abort[OF run f]
  have "close_loop (pre @ (p, sd) # post) (fst s, snd s @ [SessionCloseScheduled])
      = (Some e, (w2, snd s1 @ [CloseCalled p]))" .
  moreover from close_loop_events[OF run]
  have "snd s1 = snd s @ SessionCloseScheduled # map CloseCalled (map fst pre)" by simp
  ultimately show "close self s =
        (Some e, (w2, snd s @ SessionCloseScheduled # map CloseCalled (map fst pre @ [p])))"
    using a by (simp add: close_def)
qed

theorem close_in_registration_order_until_failure_witness:
  "close (example_atv\<lparr>protocol_handlers := [(MRP, (failing_routine ''refused'', ok_routine, [''Stop''])), (DMAP, (connect_routine 3, failing_routine ''busy'', [])), (AirPlay, (ok_routine, ok_routine, []))]\<rparr>) ([], [])
     = (Some (BackendError ''busy''), ([], [SessionCloseScheduled, CloseCalled MRP, CloseCalled DMAP]))
   \<and> close (example_atv\<lparr>protocol_handlers := [(MRP, (failing_routine ''refused'', ok_routine, [''Stop''])), (DMAP, (connect_routine 3, ok_routine, []))]\<rparr>) ([], [])
     = (None, ([], [SessionCloseScheduled, CloseCalled MRP, CloseCalled DMAP]))"
proof -
  let ?a = "example_atv\<lparr>protocol_handlers := [(MRP, (failing_routine ''refused'', ok_routine, [''Stop''])), (DMAP, (connect_routine 3, failing_routine ''busy'', [])), (AirPlay, (ok_routine, ok_routine, []))]\<rparr>"
  let ?b = "example_atv\<lparr>protocol_handlers := [(MRP, (failing_routine ''refused'', ok_routine, [''Stop''])), (DMAP, (connect_routine 3, ok_routine, []))]\<rparr>"
  have h: "protocol_handlers ?a = [(MRP, (failing_routine ''refused'', ok_routine, [''Stop'']))]
      @ (DMAP, (connect_routine 3, failing_routine ''busy'', [])) # [(AirPlay, (ok_routine, ok_routine, []))]"
    by simp
  have pre: "close_loop [(MRP, (failing_routine ''refused'', ok_routine, [''Stop'']))]
      (fst (([]::nat list), ([]::event list)), snd (([]::nat list), ([]::event list)) @ [SessionCloseScheduled])
      = (None, ([], [SessionCloseScheduled, CloseCalled MRP]))"
    by (simp add: ok_routine_def)
  have f: "fst (snd (connect_routine 3, failing_routine ''busy'', ([]::string list)))
      (fst (([]::nat list), [SessionCloseScheduled, CloseCalled MRP])) = (Some (BackendError ''busy''), [])"
    by (simp add: failing_routine_def)
  have ok: "close ?b ([], []) = (None, ([], [SessionCloseScheduled, CloseCalled MRP, CloseCalled DMAP]))"
    by (simp add: close_def ok_routine_def)
  from close_in_registration_order_until_failure[of ?a "([], [])" _
      "[(MRP, (failing_routine ''refused'', ok_routine, [''Stop'']))]" DMAP
      "(connect_routine 3, failing_routine ''busy'', [])" "[(AirPlay, (ok_routine, ok_routine, []))]"
      "([], [SessionCloseScheduled, CloseCalled MRP])" "BackendError ''busy''" "[]"] h pre f
  have "close ?a ([], []) =
      (Some (BackendError ''busy''), ([], [SessionCloseScheduled, CloseCalled MRP, CloseCalled DMAP]))"
    by simp
  moreover
  from close_in_registration_order_until_failure[of ?b "([], [])"
      "([], [SessionCloseScheduled, CloseCalled MRP, CloseCalled DMAP])"] ok
  have "snd (([]::nat list), [SessionCloseScheduled, CloseCalled MRP, CloseCalled DMAP])
      = snd (([]::nat list), ([]::event list)) @ SessionCloseScheduled # map CloseCalled [MRP, DMAP]"
    by simp
  ultimately show ?thesis using ok by simp
qed

section \<open>Adding a protocol twice\<close>

text \<open>
  After \<^verbatim>\<open>add_protocol(MRP, first_record)\<close> and \<^verbatim>\<open>add_protocol(MRP, second_record)\<close> the
  handler dict holds the second record only, but the feature of the first record is still
  attributed to MRP although the second record does not declare it.
\<close>

theorem add_protocol_leftover_feature_counterexample:
  "feature_map (facade_features
      (snd (add_protocol (snd (add_protocol fresh_atv MRP first_record)) MRP second_record))) ''Play''
     = Some (MRP, example_instance 1)
   \<and> ''Play'' \<notin> set (snd (snd second_record))
   \<and> protocol_handlers (snd (add_protocol (snd (add_protocol fresh_atv MRP first_record)) MRP second_record))
     = [(MRP, second_record)]"
  by (simp add: add_protocol_def add_mapping_def get_def fresh_atv_def first_record_def
      second_record_def)

text \<open>\<^verbatim>\<open>add_protocol\<close> stores the record and hands its feature set to \<^verbatim>\<open>add_mapping\<close>.\<close>

lemma add_protocol_handlers:
  "protocol_handlers (snd (add_protocol self protocol setup_data))
     = dict_set (protocol_handlers self) protocol setup_data"
  by (simp add: add_protocol_def Let_def split: prod.splits)

lemma add_protocol_features:
  "facade_features (snd (add_protocol self protocol setup_data))
     = snd (add_mapping (facade_features self) protocol (snd (snd setup_data)))"
  by (simp add: add_protocol_def Let_def split: prod.splits)

lemma add_protocol_outcome:
  "fst (add_protocol self protocol setup_data)
     = fst (add_mapping (facade_features self) protocol (snd (snd setup_data)))"
  by (simp add: add_protocol_def Let_def split: prod.splits)

text \<open>
  C6, as the code has it. \<^verbatim>\<open>add_protocol\<close> stores the new record under the protocol, in
  the place of an earlier record for the same protocol, so that the connect and close
  routines used for it are the new ones; the records of the other protocols and the order
  of the dict are kept. The feature set of the new record is forwarded to \<^verbatim>\<open>add_mapping\<close>,
  whose outcome and feature map are those of the call: when it returns, every feature of
  the new record that was not held, or was held by a protocol of lower priority, is
  attributed to the protocol's registered instance. Nothing is removed: every feature
  attributed to the protocol before the call is still attributed to it, with the same
  instance, after the call, whether or not the new record declares it.
\<close>

theorem add_protocol_replaces_record_keeps_features:
  "map_of (protocol_handlers (snd (add_protocol self protocol setup_data))) protocol = Some setup_data
   \<and> (\<forall>q. q \<noteq> protocol \<longrightarrow>
         map_of (protocol_handlers (snd (add_protocol self protocol setup_data))) q
           = map_of (protocol_handlers self) q)
   \<and> map fst (protocol_handlers (snd (add_protocol self protocol setup_data))) =
       (if protocol \<in> set (map fst (protocol_handlers self)) then map fst (protocol_handlers self)
        else map fst (protocol_handlers self) @ [protocol])
   \<and> (\<forall>f inst. feature_map (facade_features self) f = Some (protocol, inst) \<longrightarrow>
         feature_map (facade_features (snd (add_protocol self protocol setup_data))) f
           = Some (protocol, inst))
   \<and> fst (add_protocol self protocol setup_data)
       = fst (add_mapping (facade_features self) protocol (snd (snd setup_data)))
   \<and> facade_features (snd (add_protocol self protocol setup_data))
       = snd (add_mapping (facade_features self) protocol (snd (snd setup_data)))
   \<and> (\<forall>f inst. fst (add_protocol self protocol setup_data) = None
         \<and> get (facade_features self) protocol = Some inst
         \<and> f \<in> set (snd (snd setup_data))
         \<and> (feature_map (facade_features self) f = None
            \<or> (\<exists>q j. feature_map (facade_features self) f = Some (q, j)
                  \<and> has_higher_priority protocol q = Inr True)) \<longrightarrow>
         feature_map (facade_features (snd (add_protocol self protocol setup_data))) f
           = Some (protocol, inst))"
proof -
  note hs = add_protocol_handlers[of self protocol setup_data]
  note ff = add_protocol_features[of self protocol setup_data]
  note r = add_protocol_outcome[of self protocol setup_data]
  have new: "\<forall>f inst. fst (add_protocol self protocol setup_data) = None
         \<and> get (facade_features self) protocol = Some inst
         \<and> f \<in> set (snd (snd setup_data))
         \<and> (feature_map (facade_features self) f = None
            \<or> (\<exists>q j. feature_map (facade_features self) f = Some (q, j)
                  \<and> has_higher_priority protocol q = Inr True)) \<longrightarrow>
         feature_map (facade_features (snd (add_protocol self protocol setup_data))) f
           = Some (protocol, inst)"
  proof (intro allI impI, elim conjE)
    fix f inst
    assume "fst (add_protocol self protocol setup_data) = None"
      and g: "get (facade_features self) protocol = Some inst"
      and m: "f \<in> set (snd (snd setup_data))"
      and c: "feature_map (facade_features self) f = None
            \<or> (\<exists>q j. feature_map (facade_features self) f = Some (q, j)
                  \<and> has_higher_priority protocol q = Inr True)"
    then have "fst (add_mapping (facade_features self) protocol (snd (snd setup_data))) = None"
      by (simp add: r)
    from add_mapping_takes[OF this g m c]
    show "feature_map (facade_features (snd (add_protocol self protocol setup_data))) f
           = Some (protocol, inst)"
      by (simp add: ff)
  qed
  have old: "\<forall>f inst. feature_map (facade_features self) f = Some (protocol, inst) \<longrightarrow>
         feature_map (facade_features (snd (add_protocol self protocol setup_data))) f
           = Some (protocol, inst)"
    by (simp add: ff add_mapping_keeps_own_entries)
  have h1: "map_of (protocol_handlers (snd (add_protocol self protocol setup_data))) protocol = Some setup_data"
    by (simp add: hs dict_set_lookup)
  have h2: "\<forall>q. q \<noteq> protocol \<longrightarrow>
         map_of (protocol_handlers (snd (add_protocol self protocol setup_data))) q
           = map_of (protocol_handlers self) q"
    by (simp add: hs dict_set_lookup)
  have h3: "map fst (protocol_handlers (snd (add_protocol self protocol setup_data))) =
       (if protocol \<in> set (map fst (protocol_handlers self)) then map fst (protocol_handlers self)
        else map fst (protocol_handlers self) @ [protocol])"
    by (simp add: hs dict_set_keys)
  from h1 h2 h3 old r ff new show ?thesis by blast
qed

theorem add_protocol_replaces_record_keeps_features_witness:
  "feature_map (facade_features (snd (add_protocol fresh_atv MRP first_record))) ''Play''
     = Some (MRP, example_instance 1)
   \<and> feature_map (facade_features (snd (add_protocol fresh_atv MRP first_record))) ''Pause'' = None
   \<and> fst (add_protocol (snd (add_protocol fresh_atv MRP first_record)) MRP second_record) = None
   \<and> get (facade_features (snd (add_protocol fresh_atv MRP first_record))) MRP = Some (example_instance 1)
   \<and> ''Pause'' \<in> set (snd (snd second_record))
   \<and> feature_map (facade_features
      (snd (add_protocol (snd (add_protocol fresh_atv MRP first_record)) MRP second_record))) ''Pause''
     = Some (MRP, example_instance 1)
   \<and> feature_map (facade_features
      (snd (add_protocol (snd (add_protocol fresh_atv MRP first_record)) MRP second_record))) ''Play''
     = Some (MRP, example_instance 1)
   \<and> map_of (protocol_handlers
      (snd (add_protocol (snd (add_protocol fresh_atv MRP first_record)) MRP second_record))) MRP
     = Some second_record
   \<and> DMAP \<noteq> MRP
   \<and> map_of (protocol_handlers
      (snd (add_protocol (snd (add_protocol fresh_atv MRP first_record)) MRP second_record))) DMAP
     = map_of (protocol_handlers (snd (add_protocol fresh_atv MRP first_record))) DMAP"
proof -
  let ?a = "snd (add_protocol fresh_atv MRP first_record)"
  have ffa: "facade_features ?a =
      \<lparr>interfaces = [MRP \<mapsto> example_instance 1],
       feature_map = [''Play'' \<mapsto> (MRP, example_instance 1)]\<rparr>"
    by (simp add: add_protocol_features add_mapping_def get_def fresh_atv_def first_record_def)
  have h: "feature_map (facade_features ?a) ''Play'' = Some (MRP, example_instance 1)"
    by (simp add: ffa)
  have n: "feature_map (facade_features ?a) ''Pause'' = None"
    by (simp add: ffa)
  have g: "get (facade_features ?a) MRP = Some (example_instance 1)"
    by (simp add: ffa get_def)
  have ok: "fst (add_protocol ?a MRP second_record) = None"
    by (simp add: add_protocol_outcome add_mapping_def get_def ffa second_record_def)
  have m: "''Pause'' \<in> set (snd (snd second_record))"
    by (simp add: second_record_def)
  from add_protocol_replaces_record_keeps_features[of ?a MRP second_record] h n g ok m
  show ?thesis by blast
qed

section \<open>The main service\<close>

lemma service_loop_first:
  "(\<forall>q\<in>set pre. get_service cfg q = None) \<Longrightarrow> get_service cfg p = Some s \<Longrightarrow>
     service_loop cfg (pre @ p # post) = Inr s"
  by (induction pre) simp_all

lemma service_loop_none:
  "(\<forall>q\<in>set ps. get_service cfg q = None) \<Longrightarrow>
     service_loop cfg ps = Inl (RuntimeError ''no service (bug)'')"
  by (induction ps) simp_all

text \<open>
  \<^verbatim>\<open>service\<close> reads the configuration, not the handler dict. With MRP registered and no
  service record in the configuration it raises; so it does with RAOP registered and a
  service record for RAOP, which is not in the priority list.
\<close>

theorem service_fails_with_registered_protocol_counterexample:
  "service (snd (add_protocol fresh_atv MRP first_record)) = Inl (RuntimeError ''no service (bug)'')
   \<and> map fst (protocol_handlers (snd (add_protocol fresh_atv MRP first_record))) = [MRP]
   \<and> service (snd (add_protocol raop_atv RAOP first_record)) = Inl (RuntimeError ''no service (bug)'')
   \<and> map fst (protocol_handlers (snd (add_protocol raop_atv RAOP first_record))) = [RAOP]
   \<and> get_service (config (snd (add_protocol raop_atv RAOP first_record))) RAOP = Some ''raop''"
  by (simp add: service_def add_protocol_def add_mapping_def get_def fresh_atv_def raop_atv_def
      first_record_def no_services_def DEFAULT_PRIORITIES_def)

text \<open>
  C7, as the code has it. \<^verbatim>\<open>service\<close> walks the priority list in order and returns the
  service record of the first protocol that has one in the configuration. Whenever the
  configuration has a record for at least one protocol of the priority list, a record is
  returned. When it has none, whatever protocols are registered, \<^verbatim>\<open>service\<close> raises
  \<^verbatim>\<open>RuntimeError("no service (bug)")\<close>.
\<close>

theorem service_first_record_in_priority_order:
  "(DEFAULT_PRIORITIES = pre @ p # post \<and> (\<forall>q\<in>set pre. get_service (config self) q = None)
      \<and> get_service (config self) p = Some s \<longrightarrow> service self = Inr s)
   \<and> ((\<forall>q\<in>set DEFAULT_PRIORITIES. get_service (config self) q = None) \<longrightarrow>
        service self = Inl (RuntimeError ''no service (bug)''))
   \<and> ((\<exists>q\<in>set DEFAULT_PRIORITIES. get_service (config self) q \<noteq> None) \<longrightarrow>
        (\<exists>s. service self = Inr s))"
proof (intro conjI impI)
  assume a: "DEFAULT_PRIORITIES = pre @ p # post \<and> (\<forall>q\<in>set pre. get_service (config self) q = None)
      \<and> get_service (config self) p = Some s"
  then have eq: "DEFAULT_PRIORITIES = pre @ p # post"
    and n: "\<forall>q\<in>set pre. get_service (config self) q = None"
    and f: "get_service (config self) p = Some s" by blast+
  have "service_loop (config self) (pre @ p # post) = Inr s"
    by (rule service_loop_first[OF n f])
  then show "service self = Inr s"
    unfolding service_def eq .
next
  assume "\<forall>q\<in>set DEFAULT_PRIORITIES. get_service (config self) q = None"
  then show "service self = Inl (RuntimeError ''no service (bug)'')"
    by (simp add: service_def service_loop_none)
next
  assume "\<exists>q\<in>set DEFAULT_PRIORITIES. get_service (config self) q \<noteq> None"
  then show "\<exists>s. service self = Inr s"
    by (auto simp: service_def DEFAULT_PRIORITIES_def split: option.splits)
qed

theorem service_first_record_in_priority_order_witness:
  "DEFAULT_PRIORITIES = [MRP, DMAP] @ Companion # [AirPlay]
   \<and> get_service (config companion_airplay_atv) AirPlay = Some ''airplay''
   \<and> service companion_airplay_atv = Inr ''companion''
   \<and> service example_atv = Inl (RuntimeError ''no service (bug)'')"
proof -
  have d: "DEFAULT_PRIORITIES = [MRP, DMAP] @ Companion # [AirPlay]"
    by (simp add: DEFAULT_PRIORITIES_def)
  have n: "\<forall>q\<in>set [MRP, DMAP]. get_service (config companion_airplay_atv) q = None"
    by (simp add: companion_airplay_atv_def)
  have c: "get_service (config companion_airplay_atv) Companion = Some ''companion''"
    by (simp add: companion_airplay_atv_def)
  have a: "get_service (config companion_airplay_atv) AirPlay = Some ''airplay''"
    by (simp add: companion_airplay_atv_def)
  have e: "\<forall>q\<in>set DEFAULT_PRIORITIES. get_service (config example_atv) q = None"
    by (simp add: example_atv_def no_services_def)
  have x: "\<exists>q\<in>set DEFAULT_PRIORITIES. get_service (config companion_airplay_atv) q \<noteq> None"
    using a by (auto simp: DEFAULT_PRIORITIES_def)
  from service_first_record_in_priority_order[of "[MRP, DMAP]" Companion "[AirPlay]"
      companion_airplay_atv "''companion''"] d n c
  have "service companion_airplay_atv = Inr ''companion''" by blast
  moreover
  from service_first_record_in_priority_order[of _ _ _ example_atv] e
  have "service example_atv = Inl (RuntimeError ''no service (bug)'')" by blast
  moreover
  from service_first_record_in_priority_order[of _ _ _ companion_airplay_atv] x
  have "\<exists>s. service companion_airplay_atv = Inr s" by blast
  ultimately show ?thesis using d a by blast
qed

section \<open>Power state updates\<close>

text \<open>
  C8. Every incoming notification is forwarded to the listener once, with the same
  arguments: one call of \<^verbatim>\<open>powerstate_update\<close> is one call of the listener's
  \<^verbatim>\<open>powerstate_update\<close> with the same pair of states, whose outcome and effect on the world
  are those of the facade's call. After any sequence of incoming notifications the world is
  what the listener makes of it when called once for each notification, in that order and
  with those arguments, and the calls it has received are, after the earlier ones, exactly
  that sequence, whether or not the listener raises.
\<close>

theorem powerstate_updates_forwarded_in_order:
  "powerstate_update self old_state new_state s =
     (fst (listener_powerstate_update (listener self) old_state new_state (fst s)),
      snd (listener_powerstate_update (listener self) old_state new_state (fst s)),
      snd s @ [(old_state, new_state)])
   \<and> fst (notifications self updates s) =
       foldl (\<lambda>w u. snd (listener_powerstate_update (listener self) (fst u) (snd u) w)) (fst s) updates
   \<and> snd (notifications self updates s) = snd s @ updates"
proof (intro conjI)
  show one: "\<And>a b t. powerstate_update self a b t =
     (fst (listener_powerstate_update (listener self) a b (fst t)),
      snd (listener_powerstate_update (listener self) a b (fst t)),
      snd t @ [(a, b)])"
    by (simp add: powerstate_update_def split: prod.splits)
  show "fst (notifications self updates s) =
       foldl (\<lambda>w u. snd (listener_powerstate_update (listener self) (fst u) (snd u) w)) (fst s) updates"
  proof (induction updates arbitrary: s)
    case Nil
    show ?case by simp
  next
    case (Cons u us)
    obtain a b where u: "u = (a, b)" by (cases u)
    from Cons.IH[of "snd (powerstate_update self a b s)"] u show ?case
      by (simp add: one)
  qed
  show "snd (notifications self updates s) = snd s @ updates"
  proof (induction updates arbitrary: s)
    case Nil
    show ?case by simp
  next
    case (Cons u us)
    obtain a b where u: "u = (a, b)" by (cases u)
    from Cons.IH[of "snd (powerstate_update self a b s)"] u show ?case
      by (simp add: one)
  qed
qed

theorem powerstate_updates_forwarded_in_order_witness:
  "notifications \<lparr>listener = printing_listener\<rparr> [(0, 1), (1, 2)] ([], [])
     = ([(0, 1), (1, 2)], [(0, 1), (1, 2)])
   \<and> foldl (\<lambda>w u. snd (listener_powerstate_update printing_listener (fst u) (snd u) w)) []
        [(0, 1), (1, 2)] = [(0, 1), (1, 2)]
   \<and> powerstate_update \<lparr>listener = printing_listener\<rparr> 0 1 ([], []) = (None, [(0, 1)], [(0, 1)])"
  using powerstate_updates_forwarded_in_order[of "\<lparr>listener = printing_listener\<rparr>" 0 1 "([], [])" "[(0, 1), (1, 2)]"]
  by (simp add: powerstate_update_def printing_listener_def)

section \<open>Artwork\<close>

text \<open>
  Called with neither width nor height, \<^verbatim>\<open>artwork\<close> forwards the width 512 and no height;
  a call that forwards no size constraint gives another answer from the same instance.
\<close>

theorem artwork_default_width_counterexample:
  "artwork example_metadata Omitted Omitted () = (Inr (Some (Some 512, None)), ())
   \<and> relay example_metadata ''artwork'' = Inr echo_backend
   \<and> instance_artwork echo_backend None None () = (Inr (Some (None, None)), ())"
  by (simp add: artwork_def relay_def example_metadata_def echo_backend_def DEFAULT_PRIORITIES_def)

text \<open>
  C9, as the code has it. \<^verbatim>\<open>artwork\<close> forwards its arguments to the resolved instance
  unchanged, with the defaults width 512 and height \<^verbatim>\<open>None\<close>: called with neither, it asks
  for width 512 and no height; called with a width only, for that width and no height;
  called with a height only, for width 512 and that height. No size constraint is
  forwarded only when \<^verbatim>\<open>None\<close> is passed for the width and the height is \<^verbatim>\<open>None\<close> or left
  out.
\<close>

theorem artwork_forwards_arguments_with_defaults:
  assumes "relay self ''artwork'' = Inr inst"
  shows "artwork self Omitted Omitted w = instance_artwork inst (Some 512) None w
       \<and> artwork self (Passed width) Omitted w = instance_artwork inst width None w
       \<and> artwork self Omitted (Passed height) w = instance_artwork inst (Some 512) height w
       \<and> artwork self (Passed width) (Passed height) w = instance_artwork inst width height w"
  using assms by (simp add: artwork_def)

theorem artwork_forwards_arguments_with_defaults_witness:
  "relay example_metadata ''artwork'' = Inr echo_backend
   \<and> artwork example_metadata Omitted Omitted () = (Inr (Some (Some 512, None)), ())
   \<and> artwork example_metadata (Passed None) (Passed None) () = (Inr (Some (None, None)), ())
   \<and> artwork example_metadata (Passed (Some 300)) Omitted () = (Inr (Some (Some 300, None)), ())
   \<and> artwork example_metadata Omitted (Passed (Some 200)) () = (Inr (Some (Some 512, Some 200)), ())"
proof -
  have h: "relay example_metadata ''artwork'' = Inr echo_backend"
    by (simp add: relay_def example_metadata_def echo_backend_def DEFAULT_PRIORITIES_def)
  from artwork_forwards_arguments_with_defaults[OF h, of "()" None None]
    artwork_forwards_arguments_with_defaults[OF h, of "()" "Some 300" "Some 200"] h
  show ?thesis by (simp add: echo_backend_def)
qed

section \<open>A protocol without a Features instance\<close>

text \<open>
  C10. When no Features instance is registered for the protocol, \<^verbatim>\<open>add_mapping\<close> returns
  without raising and leaves the facade, and so the whole feature map, as it was, for
  every feature set.
\<close>

theorem add_mapping_without_instance_is_noop:
  "get self protocol = None \<Longrightarrow> add_mapping self protocol feature_set = (None, self)"
  by (simp add: add_mapping_def)

theorem add_mapping_without_instance_is_noop_witness:
  "get example_features DMAP = None
   \<and> add_mapping example_features DMAP [''Play'', ''Pause''] = (None, example_features)"
proof -
  have h: "get example_features DMAP = None"
    by (simp add: get_def example_features_def)
  from add_mapping_without_instance_is_noop[OF h, of "[''Play'', ''Pause'']"] h show ?thesis by simp
qed

end
